theory Spec2Isabelle
  imports Main "HOL-Library.Sublist" "HOL-Library.While_Combinator"
begin

section \<open>The statement builder (package snowflake, \<^verbatim>\<open>TableBuilder\<close>)\<close>

text \<open>
  Go strings are byte sequences; they are modelled as \<^typ>\<open>string\<close>, a list of 8-bit
  characters. \<^verbatim>\<open>fmt.Sprintf\<close> is only ever called with \<^verbatim>\<open>%v\<close> verbs on string
  arguments, where it substitutes the argument verbatim, so every call is written as
  the concatenation of the pieces of its format string with its arguments.

  Every method has a pointer receiver, so it may write to the builder. Each method is
  therefore a function from the builder to the pair of its result and the builder as
  the method leaves it; the \<^verbatim>\<open>With\<close> setters, which return the receiver itself, return
  only the builder.
\<close>

record TableBuilder =
  name :: string
  db :: string
  schema :: string
  comment :: string

abbreviation sq :: string where
  \<open>sq \<equiv> [CHR 0x27]\<close>

definition QualifiedName :: \<open>TableBuilder \<Rightarrow> string \<times> TableBuilder\<close> where
  \<open>QualifiedName vb =
     (let n0 = [];
          n1 = (if db vb \<noteq> [] \<and> schema vb \<noteq> []
                then n0 @ ''"'' @ db vb @ ''"."'' @ schema vb @ ''".'' else n0);
          n2 = (if db vb \<noteq> [] \<and> schema vb = []
                then n1 @ ''"'' @ db vb @ ''"..'' else n1);
          n3 = (if db vb = [] \<and> schema vb \<noteq> []
                then n2 @ ''"'' @ schema vb @ ''".'' else n2);
          n4 = n3 @ ''"'' @ name vb @ ''"''
      in (n4, vb))\<close>

definition WithComment :: \<open>string \<Rightarrow> TableBuilder \<Rightarrow> TableBuilder\<close> where
  \<open>WithComment c vb = vb\<lparr>comment := c\<rparr>\<close>

definition WithDB :: \<open>string \<Rightarrow> TableBuilder \<Rightarrow> TableBuilder\<close> where
  \<open>WithDB d vb = vb\<lparr>db := d\<rparr>\<close>

definition WithSchema :: \<open>string \<Rightarrow> TableBuilder \<Rightarrow> TableBuilder\<close> where
  \<open>WithSchema s vb = vb\<lparr>schema := s\<rparr>\<close>

text \<open>\<^verbatim>\<open>Table(name)\<close> allocates a builder whose other fields hold Go's zero value, the
  empty string.\<close>

definition Table :: \<open>string \<Rightarrow> TableBuilder\<close> where
  \<open>Table n = \<lparr>name = n, db = [], schema = [], comment = []\<rparr>\<close>

definition Create :: \<open>TableBuilder \<Rightarrow> string \<times> TableBuilder\<close> where
  \<open>Create vb =
     (let q0 = ''CREATE OR REPLACE'';
          (qn, vb1) = QualifiedName vb;
          q1 = q0 @ '' TABLE '' @ qn @ ''(placeholder varchar(100))'';
          q2 = (if comment vb1 \<noteq> []
                then q1 @ '' COMMENT = '' @ sq @ comment vb1 @ sq else q1)
      in (q2, vb1))\<close>

definition Rename :: \<open>string \<Rightarrow> TableBuilder \<Rightarrow> string \<times> TableBuilder\<close> where
  \<open>Rename newName vb =
     (let (oldName, vb1) = QualifiedName vb;
          vb2 = vb1\<lparr>name := newName\<rparr>;
          (qn, vb3) = QualifiedName vb2
      in (''ALTER TABLE '' @ oldName @ '' RENAME TO '' @ qn, vb3))\<close>

definition ChangeComment :: \<open>string \<Rightarrow> TableBuilder \<Rightarrow> string \<times> TableBuilder\<close> where
  \<open>ChangeComment c vb =
     (let (qn, vb1) = QualifiedName vb
      in (''ALTER TABLE '' @ qn @ '' SET COMMENT = '' @ sq @ c @ sq, vb1))\<close>

definition RemoveComment :: \<open>TableBuilder \<Rightarrow> string \<times> TableBuilder\<close> where
  \<open>RemoveComment vb =
     (let (qn, vb1) = QualifiedName vb
      in (''ALTER TABLE '' @ qn @ '' UNSET COMMENT'', vb1))\<close>

definition Show :: \<open>TableBuilder \<Rightarrow> string \<times> TableBuilder\<close> where
  \<open>Show vb =
     (if db vb = [] then (''SHOW TABLES LIKE '' @ sq @ name vb @ sq, vb)
      else (''SHOW TABLES LIKE '' @ sq @ name vb @ sq @ '' IN DATABASE "'' @ db vb @ ''"'',
            vb))\<close>

definition Drop :: \<open>TableBuilder \<Rightarrow> string \<times> TableBuilder\<close> where
  \<open>Drop vb = (let (qn, vb1) = QualifiedName vb in (''DROP TABLE '' @ qn, vb1))\<close>

section \<open>Properties of the statement builder\<close>

lemma QualifiedName_frame: \<open>snd (QualifiedName vb) = vb\<close>
  by (simp add: QualifiedName_def Let_def)

text \<open>
  C1. Whatever the builder holds, \<^verbatim>\<open>QualifiedName()\<close> returns one of four shapes, chosen
  by which of database and schema are non-empty: \<^verbatim>\<open>"db"."schema"."name"\<close> when both
  are, \<^verbatim>\<open>"db".."name"\<close> for the database alone, \<^verbatim>\<open>"schema"."name"\<close> for the schema
  alone (one dot between the quoted parts, never two), and \<^verbatim>\<open>"name"\<close> otherwise. The
  dots of the result are those of the three fields plus the separators: two when the
  database is set, one when only the schema is, none otherwise.
\<close>

theorem QualifiedName_shapes:
  \<open>fst (QualifiedName vb) =
     (if db vb \<noteq> [] \<and> schema vb \<noteq> []
        then ''"'' @ db vb @ ''"."'' @ schema vb @ ''"."'' @ name vb @ ''"''
      else if db vb \<noteq> []
        then ''"'' @ db vb @ ''".."'' @ name vb @ ''"''
      else if schema vb \<noteq> []
        then ''"'' @ schema vb @ ''"."'' @ name vb @ ''"''
      else ''"'' @ name vb @ ''"'')
   \<and> count_list (fst (QualifiedName vb)) (CHR ''.'') =
       count_list (db vb) (CHR ''.'') + count_list (schema vb) (CHR ''.'') +
       count_list (name vb) (CHR ''.'') +
       (if db vb \<noteq> [] then 2 else if schema vb \<noteq> [] then 1 else 0)\<close>
  by (simp add: QualifiedName_def Let_def)

text \<open>
  C4. \<^verbatim>\<open>Create()\<close> returns \<^verbatim>\<open>CREATE OR REPLACE TABLE\<close>, the qualified name and the
  fixed placeholder column, followed by \<^verbatim>\<open> COMMENT = '<c>'\<close> exactly when the comment
  field is not empty.
\<close>

theorem Create_statement:
  \<open>fst (Create vb) =
     ''CREATE OR REPLACE TABLE '' @ fst (QualifiedName vb) @ ''(placeholder varchar(100))'' @
     (if comment vb \<noteq> [] then '' COMMENT = '' @ sq @ comment vb @ sq else [])\<close>
  by (simp add: Create_def QualifiedName_def Let_def)

text \<open>
  C5. \<^verbatim>\<open>Rename(newName)\<close> returns \<^verbatim>\<open>ALTER TABLE <old> RENAME TO <new>\<close>, where
  \<^verbatim>\<open><old>\<close> is the qualified name of the builder as it was before the call and
  \<^verbatim>\<open><new>\<close> the qualified name with \<^verbatim>\<open>newName\<close> in place of the name; afterwards the
  builder holds \<^verbatim>\<open>newName\<close>, and any number of later \<^verbatim>\<open>QualifiedName()\<close> calls on it
  return the qualified name built from \<^verbatim>\<open>newName\<close>.
\<close>

theorem Rename_statement:
  \<open>fst (Rename newName vb) =
       ''ALTER TABLE '' @ fst (QualifiedName vb) @ '' RENAME TO '' @
       fst (QualifiedName (vb\<lparr>name := newName\<rparr>))
   \<and> name (snd (Rename newName vb)) = newName
   \<and> fst (QualifiedName (((snd \<circ> QualifiedName) ^^ k) (snd (Rename newName vb)))) =
       fst (QualifiedName (vb\<lparr>name := newName\<rparr>))\<close>
proof -
  have after: \<open>snd (Rename newName vb) = vb\<lparr>name := newName\<rparr>\<close>
    by (simp add: Rename_def QualifiedName_def Let_def)
  have again: \<open>((snd \<circ> QualifiedName) ^^ k) b = b\<close> for b
    by (induction k) (simp_all add: QualifiedName_frame)
  have stmt: \<open>fst (Rename newName vb) =
       ''ALTER TABLE '' @ fst (QualifiedName vb) @ '' RENAME TO '' @
       fst (QualifiedName (vb\<lparr>name := newName\<rparr>))\<close>
    by (simp add: Rename_def QualifiedName_def Let_def)
  show ?thesis
    using stmt by (simp add: after again)
qed

text \<open>
  C6. \<^verbatim>\<open>Show()\<close> returns \<^verbatim>\<open>SHOW TABLES LIKE '<name>'\<close> when the database field is
  empty and \<^verbatim>\<open>SHOW TABLES LIKE '<name>' IN DATABASE "<database>"\<close> otherwise; replacing
  the schema field by any other value does not change the returned string.
\<close>

theorem Show_statement:
  \<open>fst (Show vb) =
      (if db vb = [] then ''SHOW TABLES LIKE '' @ sq @ name vb @ sq
       else ''SHOW TABLES LIKE '' @ sq @ name vb @ sq @ '' IN DATABASE "'' @ db vb @ ''"'')
   \<and> fst (Show (vb\<lparr>schema := s\<rparr>)) = fst (Show vb)\<close>
  by (simp add: Show_def)

text \<open>
  C10, as stated, calls \<^verbatim>\<open>Rename\<close> the only builder operation that writes to the
  builder. The configuration setters are builder operations too, and each writes its
  field: \<^verbatim>\<open>Table("T").WithDB("D")\<close> is no longer the builder \<^verbatim>\<open>Table("T")\<close> returned.
\<close>

theorem WithDB_mutates_builder:
  \<open>db (Table ''T'') = [] \<and> db (WithDB ''D'' (Table ''T'')) = ''D'' \<and>
   WithDB ''D'' (Table ''T'') \<noteq> Table ''T''\<close>
  by (simp add: WithDB_def Table_def)

text \<open>
  C10, amended. Among the statement-rendering operations \<^verbatim>\<open>Rename\<close> is the only one
  that writes to the builder, and it writes the name field only: it leaves the builder
  with \<^verbatim>\<open>newName\<close> as its name and the db, schema and comment fields as they were.
  \<^verbatim>\<open>QualifiedName\<close>, \<^verbatim>\<open>Create\<close>, \<^verbatim>\<open>ChangeComment\<close>, \<^verbatim>\<open>RemoveComment\<close>, \<^verbatim>\<open>Show\<close> and
  \<^verbatim>\<open>Drop\<close> leave every field unchanged. The setters \<^verbatim>\<open>WithComment\<close>, \<^verbatim>\<open>WithDB\<close> and
  \<^verbatim>\<open>WithSchema\<close> each overwrite their own field and no other.
\<close>

theorem builder_frame:
  \<open>snd (Rename newName vb) = vb\<lparr>name := newName\<rparr>
   \<and> db (snd (Rename newName vb)) = db vb
   \<and> schema (snd (Rename newName vb)) = schema vb
   \<and> comment (snd (Rename newName vb)) = comment vb
   \<and> snd (QualifiedName vb) = vb
   \<and> snd (Create vb) = vb
   \<and> snd (ChangeComment c vb) = vb
   \<and> snd (RemoveComment vb) = vb
   \<and> snd (Show vb) = vb
   \<and> snd (Drop vb) = vb
   \<and> WithComment c vb = vb\<lparr>comment := c\<rparr>
   \<and> WithDB d vb = vb\<lparr>db := d\<rparr>
   \<and> WithSchema s vb = vb\<lparr>schema := s\<rparr>\<close>
proof -
  have r: \<open>snd (Rename newName vb) = vb\<lparr>name := newName\<rparr>\<close>
    by (simp add: Rename_def QualifiedName_def Let_def)
  have q: \<open>snd (QualifiedName vb) = vb\<close>
    by (rule QualifiedName_frame)
  have cr: \<open>snd (Create vb) = vb\<close>
    by (simp add: Create_def QualifiedName_def Let_def)
  have cc: \<open>snd (ChangeComment c vb) = vb\<close>
    by (simp add: ChangeComment_def QualifiedName_def Let_def)
  have rc: \<open>snd (RemoveComment vb) = vb\<close>
    by (simp add: RemoveComment_def QualifiedName_def Let_def)
  have sh: \<open>snd (Show vb) = vb\<close>
    by (simp add: Show_def)
  have dr: \<open>snd (Drop vb) = vb\<close>
    by (simp add: Drop_def QualifiedName_def Let_def)
  show ?thesis
    by (simp add: r q cr cc rc sh dr WithComment_def WithDB_def WithSchema_def)
qed

section \<open>Composite identifiers (package resources, \<^verbatim>\<open>splitTableID\<close>)\<close>

text \<open>
  \<^verbatim>\<open>strings.Split(s, sep)\<close> with a one-byte separator: while the separator occurs in
  what is left, the bytes before its first occurrence form the next piece and the scan
  resumes behind it; what remains at the end is the last piece. A string with \<open>n\<close>
  separators yields \<open>n + 1\<close> pieces.
\<close>

function Split :: \<open>string \<Rightarrow> char \<Rightarrow> string list\<close> where
  \<open>Split s sep =
     (if sep \<in> set s
      then takeWhile (\<lambda>c. c \<noteq> sep) s # Split (tl (dropWhile (\<lambda>c. c \<noteq> sep) s)) sep
      else [s])\<close>
  by pat_completeness auto
termination
proof (relation \<open>measure (\<lambda>(s, sep). length s)\<close>)
  show \<open>wf (measure (\<lambda>(s, sep). length s))\<close> by simp
next
  fix s :: string and sep :: char
  assume \<open>sep \<in> set s\<close>
  then have \<open>dropWhile (\<lambda>c. c \<noteq> sep) s \<noteq> []\<close> by simp
  then have \<open>length (tl (dropWhile (\<lambda>c. c \<noteq> sep) s)) < length (dropWhile (\<lambda>c. c \<noteq> sep) s)\<close>
    by simp
  also have \<open>\<dots> \<le> length s\<close> by (rule length_dropWhile_le)
  finally show \<open>((tl (dropWhile (\<lambda>c. c \<noteq> sep) s), sep), (s, sep)) \<in> measure (\<lambda>(s, sep). length s)\<close>
    by simp
qed

declare Split.simps [simp del]

text \<open>The error of \<^verbatim>\<open>fmt.Errorf\<close> is modelled by its message, on the left of a sum.\<close>

definition splitTableID :: \<open>string \<Rightarrow> string + (string \<times> string \<times> string)\<close> where
  \<open>splitTableID v =
     (let arr = Split v (CHR ''|'')
      in if length arr \<noteq> 3 then Inl (''ID '' @ v @ '' is invalid'')
         else Inr (arr ! 0, arr ! 1, arr ! 2))\<close>

text \<open>The identifier that \<^verbatim>\<open>CreateTable\<close> and \<^verbatim>\<open>UpdateTable\<close> hand to \<^verbatim>\<open>data.SetId\<close>:
  \<^verbatim>\<open>fmt.Sprintf("%v|%v|%v", database, schema, name)\<close>.\<close>

definition tableID :: \<open>string \<Rightarrow> string \<Rightarrow> string \<Rightarrow> string\<close> where
  \<open>tableID database schema' name' = database @ ''|'' @ schema' @ ''|'' @ name'\<close>

subsection \<open>Splitting\<close>

lemma Split_no_sep: \<open>sep \<notin> set s \<Longrightarrow> Split s sep = [s]\<close>
  by (subst Split.simps) simp

lemma takeWhile_upto_sep:
  \<open>sep \<notin> set a \<Longrightarrow> takeWhile (\<lambda>c. c \<noteq> sep) (a @ sep # rest) = a\<close>
  by (induction a) auto

lemma dropWhile_upto_sep:
  \<open>sep \<notin> set a \<Longrightarrow> dropWhile (\<lambda>c. c \<noteq> sep) (a @ sep # rest) = sep # rest\<close>
  by (induction a) auto

lemma Split_append:
  \<open>sep \<notin> set a \<Longrightarrow> Split (a @ sep # rest) sep = a # Split rest sep\<close>
  by (subst Split.simps) (simp add: takeWhile_upto_sep dropWhile_upto_sep)

lemma length_Split: \<open>length (Split s sep) = Suc (count_list s sep)\<close>
proof (induction s sep rule: Split.induct)
  case (1 s sep)
  show ?case
  proof (cases \<open>sep \<in> set s\<close>)
    case False
    then show ?thesis by (simp add: Split_no_sep count_list_0_iff)
  next
    case True
    then obtain a rest where s: \<open>s = a @ sep # rest\<close> and a: \<open>sep \<notin> set a\<close>
      by (meson split_list_first)
    have d: \<open>tl (dropWhile (\<lambda>c. c \<noteq> sep) s) = rest\<close>
      using a by (simp add: s dropWhile_upto_sep)
    have a0: \<open>count_list a sep = 0\<close> using a by (simp add: count_list_0_iff)
    have ih: \<open>length (Split rest sep) = Suc (count_list rest sep)\<close>
      using 1 [OF True] by (simp only: d)
    from ih a0 show ?thesis
      using a by (simp add: s Split_append)
  qed
qed

lemma Split3:
  \<open>sep \<notin> set a \<Longrightarrow> sep \<notin> set b \<Longrightarrow> sep \<notin> set c \<Longrightarrow>
   Split (a @ sep # b @ sep # c) sep = [a, b, c]\<close>
  by (simp add: Split_append Split_no_sep)

lemma count2_shape:
  assumes c: \<open>count_list v sep = 2\<close>
  shows \<open>\<exists>a b c. v = a @ sep # b @ sep # c \<and> sep \<notin> set a \<and> sep \<notin> set b \<and> sep \<notin> set c\<close>
proof -
  from c have \<open>sep \<in> set v\<close> by (metis count_list_0_iff zero_neq_numeral)
  then obtain a r where v: \<open>v = a @ sep # r\<close> and a: \<open>sep \<notin> set a\<close>
    by (meson split_list_first)
  have a0: \<open>count_list a sep = 0\<close> using a by (simp add: count_list_0_iff)
  have r1: \<open>count_list r sep = 1\<close> using c a0 by (simp add: v)
  then have \<open>sep \<in> set r\<close> by (metis count_list_0_iff zero_neq_one)
  then obtain b c' where r: \<open>r = b @ sep # c'\<close> and b: \<open>sep \<notin> set b\<close>
    by (meson split_list_first)
  have b0: \<open>count_list b sep = 0\<close> using b by (simp add: count_list_0_iff)
  have \<open>count_list c' sep = 0\<close> using r1 b0 by (simp add: r)
  then have \<open>sep \<notin> set c'\<close> by (simp add: count_list_0_iff)
  with v r a b show ?thesis by blast
qed

lemma splitTableID_three:
  \<open>CHR ''|'' \<notin> set a \<Longrightarrow> CHR ''|'' \<notin> set b \<Longrightarrow> CHR ''|'' \<notin> set c \<Longrightarrow>
   splitTableID (a @ ''|'' @ b @ ''|'' @ c) = Inr (a, b, c)\<close>
  using Split3 [of \<open>CHR ''|''\<close> a b c] by (simp add: splitTableID_def)

text \<open>
  C3. The identity (database \<^verbatim>\<open>D\<close>, schema \<^verbatim>\<open>S\<close>, name \<^verbatim>\<open>T\<close>) is encoded as \<^verbatim>\<open>D|S|T\<close>,
  and \<^verbatim>\<open>splitTableID\<close> decodes that to exactly \<^verbatim>\<open>("D", "S", "T")\<close> with no error; on
  every string whose number of \<^verbatim>\<open>|\<close> characters is not two it returns the error
  \<^verbatim>\<open>ID <v> is invalid\<close>.
\<close>

theorem splitTableID_roundtrip:
  \<open>tableID ''D'' ''S'' ''T'' = ''D|S|T''
   \<and> splitTableID (tableID ''D'' ''S'' ''T'') = Inr (''D'', ''S'', ''T'')
   \<and> (count_list v (CHR ''|'') \<noteq> 2 \<longrightarrow> splitTableID v = Inl (''ID '' @ v @ '' is invalid''))\<close>
proof -
  have enc: \<open>tableID ''D'' ''S'' ''T'' = ''D|S|T''\<close>
    by (simp add: tableID_def)
  have dec: \<open>splitTableID ''D|S|T'' = Inr (''D'', ''S'', ''T'')\<close>
    using splitTableID_three [of \<open>''D''\<close> \<open>''S''\<close> \<open>''T''\<close>] by simp
  have err: \<open>splitTableID v = Inl (''ID '' @ v @ '' is invalid'')\<close>
    if \<open>count_list v (CHR ''|'') \<noteq> 2\<close>
    using that by (simp add: splitTableID_def length_Split)
  show ?thesis
    using dec err by (simp add: enc)
qed

theorem splitTableID_roundtrip_witness:
  \<open>count_list ''D|S'' (CHR ''|'') \<noteq> 2 \<and> splitTableID ''D|S'' = Inl ''ID D|S is invalid''\<close>
  using splitTableID_roundtrip [of \<open>''D|S''\<close>] by simp

text \<open>
  C9. \<^verbatim>\<open>splitTableID\<close> checks the number of segments and nothing else: every string
  with exactly two \<^verbatim>\<open>|\<close> characters decodes without error to the three segments around
  them, taken verbatim, whether or not a segment is empty; \<^verbatim>\<open>||\<close> decodes to three
  empty strings.
\<close>

theorem splitTableID_no_validation:
  \<open>(count_list v (CHR ''|'') = 2 \<longrightarrow>
      (\<exists>a b c. splitTableID v = Inr (a, b, c) \<and> v = a @ ''|'' @ b @ ''|'' @ c \<and>
         CHR ''|'' \<notin> set a \<and> CHR ''|'' \<notin> set b \<and> CHR ''|'' \<notin> set c))
   \<and> splitTableID ''||'' = Inr ([], [], [])\<close>
proof -
  have gen: \<open>\<exists>a b c. splitTableID v = Inr (a, b, c) \<and> v = a @ ''|'' @ b @ ''|'' @ c \<and>
         CHR ''|'' \<notin> set a \<and> CHR ''|'' \<notin> set b \<and> CHR ''|'' \<notin> set c\<close>
    if c2: \<open>count_list v (CHR ''|'') = 2\<close>
  proof -
    from count2_shape [OF c2] obtain a b c where
      v: \<open>v = a @ CHR ''|'' # b @ CHR ''|'' # c\<close> and
      n: \<open>CHR ''|'' \<notin> set a\<close> \<open>CHR ''|'' \<notin> set b\<close> \<open>CHR ''|'' \<notin> set c\<close>
      by blast
    have \<open>splitTableID v = Inr (a, b, c)\<close>
      using splitTableID_three [OF n] by (simp add: v)
    with v n show ?thesis by auto
  qed
  have empty: \<open>splitTableID ''||'' = Inr ([], [], [])\<close>
    using splitTableID_three [of \<open>[]\<close> \<open>[]\<close> \<open>[]\<close>] by simp
  show ?thesis
    using gen empty by blast
qed

theorem splitTableID_no_validation_witness:
  \<open>count_list ''D||T'' (CHR ''|'') = 2 \<and> splitTableID ''D||T'' = Inr (''D'', [], ''T'')\<close>
proof -
  have c2: \<open>count_list ''D||T'' (CHR ''|'') = 2\<close> by simp
  from splitTableID_no_validation [of \<open>''D||T''\<close>] c2 obtain a b c where
    r: \<open>splitTableID ''D||T'' = Inr (a, b, c)\<close>
    by blast
  have \<open>splitTableID ''D||T'' = Inr (''D'', [], ''T'')\<close>
    using splitTableID_three [of \<open>''D''\<close> \<open>[]\<close> \<open>''T''\<close>] by simp
  with r c2 show ?thesis by simp
qed

section \<open>Diff suppression (package resources)\<close>

subsection \<open>The regular expression \<^verbatim>\<open>\s+\<close>\<close>

text \<open>
  \<^verbatim>\<open>tableSpace\<close> is \<^verbatim>\<open>regexp.MustCompile(`\s+`)\<close>. In Go's regular expressions the class
  \<^verbatim>\<open>\s\<close> is \<^verbatim>\<open>[\t\n\f\r ]\<close>: tab, line feed, form feed, carriage return and space, and
  nothing else (the vertical tab and the white space beyond ASCII are not in it). These
  five are single bytes below \<^verbatim>\<open>0x80\<close>, which never occur inside the UTF-8 encoding of
  another code point, so the class is decided byte by byte.
\<close>

definition isReSpace :: \<open>char \<Rightarrow> bool\<close> where
  \<open>isReSpace c = (c = CHR 0x09 \<or> c = CHR 0x0A \<or> c = CHR 0x0C \<or> c = CHR 0x0D \<or> c = CHR 0x20)\<close>

text \<open>
  \<^verbatim>\<open>tableSpace.ReplaceAllString(src, repl)\<close> for a replacement without \<^verbatim>\<open>$\<close>: matches are
  found from the left, each match of \<^verbatim>\<open>\s+\<close> is a maximal run of class bytes, and each
  is replaced by \<^verbatim>\<open>repl\<close>.
\<close>

function tableSpace_ReplaceAllString :: \<open>string \<Rightarrow> string \<Rightarrow> string\<close> where
  \<open>tableSpace_ReplaceAllString [] repl = []\<close>
| \<open>tableSpace_ReplaceAllString (c # cs) repl =
     (if isReSpace c then repl @ tableSpace_ReplaceAllString (dropWhile isReSpace cs) repl
      else c # tableSpace_ReplaceAllString cs repl)\<close>
  by pat_completeness auto
termination
  by (relation \<open>measure (\<lambda>(s, repl). length s)\<close>)
     (simp_all add: le_imp_less_Suc length_dropWhile_le)

subsection \<open>\<^verbatim>\<open>strings.TrimSpace\<close>\<close>

text \<open>
  \<^verbatim>\<open>strings.TrimSpace\<close> removes the leading and the trailing code points for which
  \<^verbatim>\<open>unicode.IsSpace\<close> holds: U+0009 to U+000D, U+0020, U+0085, U+00A0, U+1680, U+2000 to
  U+200A, U+2028, U+2029, U+202F, U+205F and U+3000. A decoded code point is one of these
  exactly when the bytes decoded are its UTF-8 encoding, so a white-space code point
  stands at the head (at the end) of a string exactly when one of the encodings below is
  a prefix (a suffix) of it. No encoding in the list is a prefix or a suffix of another.
\<close>

definition whiteSpace :: \<open>string list\<close> where
  \<open>whiteSpace =
     [[CHR 0x09], [CHR 0x0A], [CHR 0x0B], [CHR 0x0C], [CHR 0x0D], [CHR 0x20],
      [CHR 0xC2, CHR 0x85], [CHR 0xC2, CHR 0xA0],
      [CHR 0xE1, CHR 0x9A, CHR 0x80],
      [CHR 0xE2, CHR 0x80, CHR 0x80], [CHR 0xE2, CHR 0x80, CHR 0x81],
      [CHR 0xE2, CHR 0x80, CHR 0x82], [CHR 0xE2, CHR 0x80, CHR 0x83],
      [CHR 0xE2, CHR 0x80, CHR 0x84], [CHR 0xE2, CHR 0x80, CHR 0x85],
      [CHR 0xE2, CHR 0x80, CHR 0x86], [CHR 0xE2, CHR 0x80, CHR 0x87],
      [CHR 0xE2, CHR 0x80, CHR 0x88], [CHR 0xE2, CHR 0x80, CHR 0x89],
      [CHR 0xE2, CHR 0x80, CHR 0x8A],
      [CHR 0xE2, CHR 0x80, CHR 0xA8], [CHR 0xE2, CHR 0x80, CHR 0xA9],
      [CHR 0xE2, CHR 0x80, CHR 0xAF],
      [CHR 0xE2, CHR 0x81, CHR 0x9F],
      [CHR 0xE3, CHR 0x80, CHR 0x80]]\<close>

definition leadingSpace :: \<open>string \<Rightarrow> nat\<close> where
  \<open>leadingSpace s = (case find (\<lambda>w. prefix w s) whiteSpace of Some w \<Rightarrow> length w | None \<Rightarrow> 0)\<close>

definition trailingSpace :: \<open>string \<Rightarrow> nat\<close> where
  \<open>trailingSpace s = (case find (\<lambda>w. suffix w s) whiteSpace of Some w \<Rightarrow> length w | None \<Rightarrow> 0)\<close>

lemma whiteSpace_nonempty: \<open>w \<in> set whiteSpace \<Longrightarrow> w \<noteq> []\<close>
  by (auto simp: whiteSpace_def)

lemma leadingSpace_le: \<open>leadingSpace s \<le> length s\<close>
  by (auto simp: leadingSpace_def find_Some_iff prefix_length_le split: option.splits)

lemma trailingSpace_le: \<open>trailingSpace s \<le> length s\<close>
  by (auto simp: trailingSpace_def find_Some_iff suffix_length_le split: option.splits)

function TrimLeftSpace :: \<open>string \<Rightarrow> string\<close> where
  \<open>TrimLeftSpace s =
     (if leadingSpace s = 0 then s else TrimLeftSpace (drop (leadingSpace s) s))\<close>
  by pat_completeness auto
termination
proof (relation \<open>measure length\<close>)
  show \<open>wf (measure length)\<close> by simp
next
  fix s :: string
  assume \<open>leadingSpace s \<noteq> 0\<close>
  with leadingSpace_le [of s] show \<open>(drop (leadingSpace s) s, s) \<in> measure length\<close>
    by simp
qed

function TrimRightSpace :: \<open>string \<Rightarrow> string\<close> where
  \<open>TrimRightSpace s =
     (if trailingSpace s = 0 then s else TrimRightSpace (take (length s - trailingSpace s) s))\<close>
  by pat_completeness auto
termination
proof (relation \<open>measure length\<close>)
  show \<open>wf (measure length)\<close> by simp
next
  fix s :: string
  assume \<open>trailingSpace s \<noteq> 0\<close>
  with trailingSpace_le [of s] show \<open>(take (length s - trailingSpace s) s, s) \<in> measure length\<close>
    by simp
qed

declare TrimLeftSpace.simps [simp del] TrimRightSpace.simps [simp del]

text \<open>\<^verbatim>\<open>TrimSpace\<close> trims the left end, then the right end of what is left.\<close>

definition TrimSpace :: \<open>string \<Rightarrow> string\<close> where
  \<open>TrimSpace s = TrimRightSpace (TrimLeftSpace s)\<close>

subsection \<open>\<^verbatim>\<open>tableNormalizeQuery\<close>\<close>

definition tableNormalizeQuery :: \<open>string \<Rightarrow> string\<close> where
  \<open>tableNormalizeQuery str = TrimSpace (tableSpace_ReplaceAllString str '' '')\<close>


subsection \<open>Trimming is idempotent\<close>

lemma leadingSpace_0_iff: \<open>leadingSpace s = 0 \<longleftrightarrow> (\<forall>w \<in> set whiteSpace. \<not> prefix w s)\<close>
  by (auto simp: leadingSpace_def find_None_iff find_Some_iff whiteSpace_nonempty
           split: option.splits)

lemma trailingSpace_0_iff: \<open>trailingSpace s = 0 \<longleftrightarrow> (\<forall>w \<in> set whiteSpace. \<not> suffix w s)\<close>
  by (auto simp: trailingSpace_def find_None_iff find_Some_iff whiteSpace_nonempty
           split: option.splits)

lemma leadingSpace_TrimLeftSpace: \<open>leadingSpace (TrimLeftSpace s) = 0\<close>
  by (induction s rule: TrimLeftSpace.induct) (subst TrimLeftSpace.simps, simp)

lemma trailingSpace_TrimRightSpace: \<open>trailingSpace (TrimRightSpace s) = 0\<close>
  by (induction s rule: TrimRightSpace.induct) (subst TrimRightSpace.simps, simp)

lemma TrimLeftSpace_id: \<open>leadingSpace s = 0 \<Longrightarrow> TrimLeftSpace s = s\<close>
  by (subst TrimLeftSpace.simps) simp

lemma TrimRightSpace_id: \<open>trailingSpace s = 0 \<Longrightarrow> TrimRightSpace s = s\<close>
  by (subst TrimRightSpace.simps) simp

lemma TrimLeftSpace_drop: \<open>\<exists>n. TrimLeftSpace s = drop n s\<close>
proof (induction s rule: TrimLeftSpace.induct)
  case (1 s)
  show ?case
  proof (cases \<open>leadingSpace s = 0\<close>)
    case True
    then have \<open>TrimLeftSpace s = drop 0 s\<close> by (simp add: TrimLeftSpace_id)
    then show ?thesis by blast
  next
    case False
    from 1 [OF False] obtain n where \<open>TrimLeftSpace (drop (leadingSpace s) s) = drop n (drop (leadingSpace s) s)\<close>
      by blast
    with False have \<open>TrimLeftSpace s = drop (n + leadingSpace s) s\<close>
      by (subst TrimLeftSpace.simps) simp
    then show ?thesis by blast
  qed
qed

lemma TrimRightSpace_take: \<open>\<exists>n. TrimRightSpace s = take n s\<close>
proof (induction s rule: TrimRightSpace.induct)
  case (1 s)
  show ?case
  proof (cases \<open>trailingSpace s = 0\<close>)
    case True
    then have \<open>TrimRightSpace s = take (length s) s\<close> by (simp add: TrimRightSpace_id)
    then show ?thesis by blast
  next
    case False
    from 1 [OF False] obtain n where
      \<open>TrimRightSpace (take (length s - trailingSpace s) s) = take n (take (length s - trailingSpace s) s)\<close>
      by blast
    with False have \<open>TrimRightSpace s = take (min n (length s - trailingSpace s)) s\<close>
      by (subst TrimRightSpace.simps) simp
    then show ?thesis by blast
  qed
qed

lemma leadingSpace_take: \<open>leadingSpace s = 0 \<Longrightarrow> leadingSpace (take n s) = 0\<close>
  unfolding leadingSpace_0_iff
  by (metis append_take_drop_id prefix_order.trans prefixI)

lemma TrimSpace_idem: \<open>TrimSpace (TrimSpace s) = TrimSpace s\<close>
proof -
  obtain n where n: \<open>TrimRightSpace (TrimLeftSpace s) = take n (TrimLeftSpace s)\<close>
    using TrimRightSpace_take by blast
  have \<open>leadingSpace (TrimSpace s) = 0\<close>
    unfolding TrimSpace_def n by (rule leadingSpace_take) (rule leadingSpace_TrimLeftSpace)
  then have \<open>TrimLeftSpace (TrimSpace s) = TrimSpace s\<close>
    by (rule TrimLeftSpace_id)
  moreover have \<open>trailingSpace (TrimSpace s) = 0\<close>
    unfolding TrimSpace_def by (rule trailingSpace_TrimRightSpace)
  ultimately show ?thesis
    by (simp add: TrimSpace_def [of \<open>TrimSpace s\<close>] TrimRightSpace_id)
qed

lemma TrimSpace_infix: \<open>\<exists>m n. TrimSpace s = take m (drop n s)\<close>
  unfolding TrimSpace_def using TrimRightSpace_take TrimLeftSpace_drop by metis


subsection \<open>Collapsed strings\<close>

text \<open>
  A string is collapsed when every byte of the class \<^verbatim>\<open>\s\<close> in it is a space that is not
  followed by another byte of the class. The replacement produces collapsed strings,
  leaves them as they are, and every part of a collapsed string is collapsed.
\<close>

fun collapsed :: \<open>string \<Rightarrow> bool\<close> where
  \<open>collapsed [] = True\<close>
| \<open>collapsed [c] = (isReSpace c \<longrightarrow> c = CHR '' '')\<close>
| \<open>collapsed (c # d # cs) =
     ((isReSpace c \<longrightarrow> c = CHR '' '' \<and> \<not> isReSpace d) \<and> collapsed (d # cs))\<close>

lemma ReplaceAll_head:
  \<open>\<not> isReSpace d \<Longrightarrow> \<exists>r. tableSpace_ReplaceAllString (d # ds) repl = d # r\<close>
  by simp

lemma dropWhile_head: \<open>dropWhile P xs = [] \<or> (\<exists>d ds. dropWhile P xs = d # ds \<and> \<not> P d)\<close>
  by (metis hd_dropWhile list.exhaust list.sel(1))

lemma collapsed_ReplaceAll: \<open>collapsed (tableSpace_ReplaceAllString s '' '')\<close>
proof (induction s \<open>'' ''\<close> rule: tableSpace_ReplaceAllString.induct)
  case 1
  show ?case by simp
next
  case (2 c cs)
  show ?case
  proof (cases \<open>isReSpace c\<close>)
    case True
    note ih = 2(1) [OF True]
    from dropWhile_head [of isReSpace cs] show ?thesis
    proof
      assume e: \<open>dropWhile isReSpace cs = []\<close>
      have \<open>tableSpace_ReplaceAllString (c # cs) '' '' = '' ''\<close>
        using True by (simp only: tableSpace_ReplaceAllString.simps e if_True append_Nil2)
      then show ?thesis by (simp add: isReSpace_def)
    next
      assume \<open>\<exists>d ds. dropWhile isReSpace cs = d # ds \<and> \<not> isReSpace d\<close>
      then obtain d ds where d: \<open>dropWhile isReSpace cs = d # ds\<close> \<open>\<not> isReSpace d\<close> by blast
      from d(2) obtain r where r: \<open>tableSpace_ReplaceAllString (d # ds) '' '' = d # r\<close>
        by simp
      have \<open>tableSpace_ReplaceAllString (c # cs) '' '' =
            '' '' @ tableSpace_ReplaceAllString (dropWhile isReSpace cs) '' ''\<close>
        using True by simp
      then have \<open>tableSpace_ReplaceAllString (c # cs) '' '' = CHR '' '' # d # r\<close>
        by (simp only: d(1) r append_Cons append_Nil)
      moreover have \<open>collapsed (d # r)\<close>
        using ih by (simp only: d(1) r)
      ultimately show ?thesis using d(2) by simp
    qed
  next
    case False
    note ih = 2(2) [OF False]
    show ?thesis
    proof (cases \<open>tableSpace_ReplaceAllString cs '' ''\<close>)
      case Nil
      with False show ?thesis by simp
    next
      case (Cons e es)
      with ih False show ?thesis by simp
    qed
  qed
qed

lemma collapsed_tl: \<open>collapsed (c # cs) \<Longrightarrow> collapsed cs\<close>
  by (cases cs) simp_all

lemma ReplaceAll_collapsed: \<open>collapsed s \<Longrightarrow> tableSpace_ReplaceAllString s '' '' = s\<close>
proof (induction s)
  case Nil
  show ?case by simp
next
  case (Cons c cs)
  then have ih: \<open>tableSpace_ReplaceAllString cs '' '' = cs\<close>
    by (simp add: collapsed_tl)
  show ?case
  proof (cases \<open>isReSpace c\<close>)
    case False
    with ih show ?thesis by simp
  next
    case True
    show ?thesis
    proof (cases cs)
      case Nil
      with True Cons.prems show ?thesis by simp
    next
      case (Cons d ds)
      with True Cons.prems have \<open>c = CHR '' ''\<close> \<open>\<not> isReSpace d\<close> by simp_all
      with True ih Cons show ?thesis by simp
    qed
  qed
qed

lemma collapsed_drop: \<open>collapsed s \<Longrightarrow> collapsed (drop n s)\<close>
proof (induction n arbitrary: s)
  case 0
  then show ?case by simp
next
  case (Suc n)
  then show ?case by (cases s) (auto dest: collapsed_tl)
qed

lemma collapsed_take: \<open>collapsed s \<Longrightarrow> collapsed (take n s)\<close>
proof (induction s arbitrary: n rule: collapsed.induct)
  case 1
  show ?case by simp
next
  case (2 c)
  then show ?case by (cases n) simp_all
next
  case (3 c d cs)
  show ?case
  proof (cases n)
    case 0
    then show ?thesis by simp
  next
    case (Suc m)
    from 3 have ih: \<open>collapsed (take m (d # cs))\<close> by simp
    show ?thesis
    proof (cases m)
      case 0
      with Suc 3(2) show ?thesis by simp
    next
      case (Suc k)
      with ih 3(2) \<open>n = Suc m\<close> show ?thesis by simp
    qed
  qed
qed

lemma tableNormalizeQuery_collapsed: \<open>collapsed (tableNormalizeQuery s)\<close>
proof -
  obtain m n where \<open>TrimSpace (tableSpace_ReplaceAllString s '' '') =
      take m (drop n (tableSpace_ReplaceAllString s '' ''))\<close>
    using TrimSpace_infix by blast
  then show ?thesis
    by (simp add: tableNormalizeQuery_def collapsed_take collapsed_drop collapsed_ReplaceAll)
qed

lemma tableNormalizeQuery_idem:
  \<open>tableNormalizeQuery (tableNormalizeQuery s) = tableNormalizeQuery s\<close>
proof -
  have \<open>tableSpace_ReplaceAllString (tableNormalizeQuery s) '' '' = tableNormalizeQuery s\<close>
    by (rule ReplaceAll_collapsed) (rule tableNormalizeQuery_collapsed)
  then have \<open>tableNormalizeQuery (tableNormalizeQuery s) = TrimSpace (tableNormalizeQuery s)\<close>
    by (simp add: tableNormalizeQuery_def [of \<open>tableNormalizeQuery s\<close>])
  also have \<open>\<dots> = tableNormalizeQuery s\<close>
    by (simp add: tableNormalizeQuery_def TrimSpace_idem)
  finally show ?thesis .
qed

subsection \<open>\<^verbatim>\<open>strings.EqualFold\<close>\<close>

text \<open>
  \<^verbatim>\<open>utf8.DecodeRuneInString\<close> returns the first code point of a string and the number of
  bytes it takes; a byte that starts no valid encoding decodes to \<^verbatim>\<open>RuneError\<close> with
  width 1. \<^verbatim>\<open>first\<close> gives, for a leading byte of a multi-byte encoding, the length of
  the encoding and the range accepted for its second byte (the tables \<^verbatim>\<open>first\<close> and
  \<^verbatim>\<open>acceptRanges\<close> of package \<^verbatim>\<open>utf8\<close>); the masks and shifts of the Go code are written
  with \<open>mod\<close> and multiplication.
\<close>

definition RuneError :: nat where
  \<open>RuneError = 0xFFFD\<close>

definition first :: \<open>nat \<Rightarrow> (nat \<times> nat \<times> nat) option\<close> where
  \<open>first b =
     (if 0xC2 \<le> b \<and> b \<le> 0xDF then Some (2, 0x80, 0xBF)
      else if b = 0xE0 then Some (3, 0xA0, 0xBF)
      else if 0xE1 \<le> b \<and> b \<le> 0xEC then Some (3, 0x80, 0xBF)
      else if b = 0xED then Some (3, 0x80, 0x9F)
      else if 0xEE \<le> b \<and> b \<le> 0xEF then Some (3, 0x80, 0xBF)
      else if b = 0xF0 then Some (4, 0x90, 0xBF)
      else if 0xF1 \<le> b \<and> b \<le> 0xF3 then Some (4, 0x80, 0xBF)
      else if b = 0xF4 then Some (4, 0x80, 0x8F)
      else None)\<close>

definition DecodeRuneInString :: \<open>string \<Rightarrow> nat \<times> nat\<close> where
  \<open>DecodeRuneInString s =
     (let n = length s in
      if n < 1 then (RuneError, 0)
      else
        let s0 = of_char (s ! 0) :: nat in
        if s0 < 0x80 then (s0, 1)
        else
          (case first s0 of
             None \<Rightarrow> (RuneError, 1)
           | Some (sz, lo, hi) \<Rightarrow>
               if n < sz then (RuneError, 1)
               else
                 let s1 = of_char (s ! 1) :: nat in
                 if s1 < lo \<or> hi < s1 then (RuneError, 1)
                 else if sz \<le> 2 then ((s0 mod 0x20) * 0x40 + s1 mod 0x40, 2)
                 else
                   let s2 = of_char (s ! 2) :: nat in
                   if s2 < 0x80 \<or> 0xBF < s2 then (RuneError, 1)
                   else if sz \<le> 3
                     then ((s0 mod 0x10) * 0x1000 + (s1 mod 0x40) * 0x40 + s2 mod 0x40, 3)
                   else
                     let s3 = of_char (s ! 3) :: nat in
                     if s3 < 0x80 \<or> 0xBF < s3 then (RuneError, 1)
                     else ((s0 mod 0x08) * 0x40000 + (s1 mod 0x40) * 0x1000 +
                           (s2 mod 0x40) * 0x40 + s3 mod 0x40, 4)))\<close>

text \<open>The encodings listed in \<^const>\<open>whiteSpace\<close> decode, at their full length, to the code
  points of \<^verbatim>\<open>unicode.IsSpace\<close>.\<close>

lemma whiteSpace_decodes:
  \<open>map DecodeRuneInString whiteSpace =
     [(0x09, 1), (0x0A, 1), (0x0B, 1), (0x0C, 1), (0x0D, 1), (0x20, 1),
      (0x85, 2), (0xA0, 2), (0x1680, 3),
      (0x2000, 3), (0x2001, 3), (0x2002, 3), (0x2003, 3), (0x2004, 3), (0x2005, 3),
      (0x2006, 3), (0x2007, 3), (0x2008, 3), (0x2009, 3), (0x200A, 3),
      (0x2028, 3), (0x2029, 3), (0x202F, 3), (0x205F, 3), (0x3000, 3)]\<close>
  by (simp add: whiteSpace_def DecodeRuneInString_def first_def Let_def)

lemma DecodeRuneInString_size: \<open>s \<noteq> [] \<Longrightarrow> 0 < snd (DecodeRuneInString s)\<close>
  by (auto simp: DecodeRuneInString_def Let_def split: option.splits)

text \<open>
  One round of the loop of \<^verbatim>\<open>EqualFold\<close> on the code points \<^verbatim>\<open>sr\<close> and \<^verbatim>\<open>tr\<close> decoded
  from the two strings: equal code points match; two ASCII code points match when one is
  an upper-case letter and the other the same letter in lower case; otherwise the orbit of
  the smaller one under \<^verbatim>\<open>unicode.SimpleFold\<close> is walked until it returns to its start or
  reaches the larger one. The Unicode case-folding table is not part of the repository:
  \<^verbatim>\<open>SimpleFold\<close> is a parameter, and a walk that never ends for it is the value \<open>None\<close>.
\<close>

definition foldsTo :: \<open>(nat \<Rightarrow> nat) \<Rightarrow> nat \<Rightarrow> nat \<Rightarrow> bool option\<close> where
  \<open>foldsTo SimpleFold sr0 tr0 =
     (if tr0 = sr0 then Some True
      else
        let sr = (if tr0 < sr0 then tr0 else sr0);
            tr = (if tr0 < sr0 then sr0 else tr0)
        in if tr < 0x80 then Some (0x41 \<le> sr \<and> sr \<le> 0x5A \<and> tr = sr + 0x61 - 0x41)
           else map_option (\<lambda>r. r = tr)
                  (while_option (\<lambda>r. r \<noteq> sr \<and> r < tr) SimpleFold (SimpleFold sr)))\<close>

function EqualFold :: \<open>(nat \<Rightarrow> nat) \<Rightarrow> string \<Rightarrow> string \<Rightarrow> bool option\<close> where
  \<open>EqualFold SimpleFold s t =
     (if s \<noteq> [] \<and> t \<noteq> [] then
        (case foldsTo SimpleFold (fst (DecodeRuneInString s)) (fst (DecodeRuneInString t)) of
           None \<Rightarrow> None
         | Some b \<Rightarrow>
             if b then EqualFold SimpleFold (drop (snd (DecodeRuneInString s)) s)
                        (drop (snd (DecodeRuneInString t)) t)
             else Some False)
      else Some (s = t))\<close>
  by pat_completeness auto
termination
proof (relation \<open>measure (\<lambda>(SimpleFold, s, t). length s)\<close>)
  show \<open>wf (measure (\<lambda>(SimpleFold, s, t). length s))\<close> by simp
next
  fix SimpleFold :: \<open>nat \<Rightarrow> nat\<close> and s t :: string and b :: bool
  assume \<open>s \<noteq> [] \<and> t \<noteq> []\<close>
  then have \<open>0 < snd (DecodeRuneInString s)\<close> \<open>0 < length s\<close>
    by (simp_all add: DecodeRuneInString_size)
  then show \<open>((SimpleFold, drop (snd (DecodeRuneInString s)) s, drop (snd (DecodeRuneInString t)) t),
         (SimpleFold, s, t)) \<in> measure (\<lambda>(SimpleFold, s, t). length s)\<close>
    by simp
qed

declare EqualFold.simps [simp del]

subsection \<open>\<^verbatim>\<open>tableDiffSuppressStatement\<close>\<close>

text \<open>The first argument (the attribute name) and the last (the resource data) are not
  used.\<close>

definition tableDiffSuppressStatement ::
    \<open>(nat \<Rightarrow> nat) \<Rightarrow> string \<Rightarrow> string \<Rightarrow> string \<Rightarrow> 'd \<Rightarrow> bool option\<close> where
  \<open>tableDiffSuppressStatement SimpleFold k old new d =
     EqualFold SimpleFold (tableNormalizeQuery old) (tableNormalizeQuery new)\<close>


subsection \<open>Properties of the comparison\<close>

lemma EqualFold_refl: \<open>EqualFold SimpleFold s s = Some True\<close>
proof (induction s rule: length_induct)
  case (1 s)
  show ?case
  proof (cases \<open>s = []\<close>)
    case True
    then show ?thesis by (subst EqualFold.simps) simp
  next
    case False
    then have \<open>length (drop (snd (DecodeRuneInString s)) s) < length s\<close>
      using DecodeRuneInString_size [OF False] by simp
    with 1 have \<open>EqualFold SimpleFold (drop (snd (DecodeRuneInString s)) s)
        (drop (snd (DecodeRuneInString s)) s) = Some True\<close>
      by blast
    with False show ?thesis
      by (subst EqualFold.simps) (simp add: foldsTo_def)
  qed
qed

lemma ReplaceAll_SELECT: \<open>tableSpace_ReplaceAllString ''SELECT  1'' '' '' = ''SELECT 1''\<close>
  by (simp add: isReSpace_def)

lemma ReplaceAll_select: \<open>tableSpace_ReplaceAllString ''select 1'' '' '' = ''select 1''\<close>
  by (simp add: isReSpace_def)

lemma leadingSpace_select: \<open>leadingSpace ''SELECT 1'' = 0\<close> \<open>leadingSpace ''select 1'' = 0\<close>
  by (simp_all add: leadingSpace_def whiteSpace_def)

lemma trailingSpace_select: \<open>trailingSpace ''SELECT 1'' = 0\<close> \<open>trailingSpace ''select 1'' = 0\<close>
  by (simp_all add: trailingSpace_def whiteSpace_def suffix_to_prefix)

lemma normalize_SELECT: \<open>tableNormalizeQuery ''SELECT  1'' = ''SELECT 1''\<close>
  by (simp only: tableNormalizeQuery_def TrimSpace_def ReplaceAll_SELECT leadingSpace_select trailingSpace_select TrimLeftSpace_id TrimRightSpace_id)

lemma normalize_select: \<open>tableNormalizeQuery ''select 1'' = ''select 1''\<close>
  by (simp only: tableNormalizeQuery_def TrimSpace_def ReplaceAll_select leadingSpace_select trailingSpace_select TrimLeftSpace_id TrimRightSpace_id)

lemma dec_ascii: \<open>of_char c < (0x80::nat) \<Longrightarrow> DecodeRuneInString (c # cs) = (of_char c, 1)\<close>
  by (simp add: DecodeRuneInString_def)

lemma EqualFold_ascii_step:
  \<open>of_char c < (0x80::nat) \<Longrightarrow> of_char d < (0x80::nat) \<Longrightarrow>
   EqualFold SF (c # cs) (d # ds) =
     (if c = d \<or> (let lo = min (of_char c) (of_char d :: nat); hi = max (of_char c) (of_char d)
                  in 0x41 \<le> lo \<and> lo \<le> 0x5A \<and> hi = lo + 0x20)
      then EqualFold SF cs ds else Some False)\<close>
  by (subst EqualFold.simps) (auto simp: dec_ascii foldsTo_def Let_def min_def max_def)

lemma EqualFold_Nil: \<open>EqualFold SF [] [] = Some True\<close>
  by (subst EqualFold.simps) simp

lemma EqualFold_SELECT_select: \<open>EqualFold SF ''SELECT 1'' ''select 1'' = Some True\<close>
  by (simp add: EqualFold_ascii_step EqualFold_Nil)

lemma EqualFold_SELECT_1_2: \<open>EqualFold SF ''SELECT 1'' ''SELECT 2'' = Some False\<close>
  by (simp add: EqualFold_ascii_step EqualFold_Nil)

lemma ReplaceAll_SELECT_12:
  \<open>tableSpace_ReplaceAllString ''SELECT 1'' '' '' = ''SELECT 1''\<close>
  \<open>tableSpace_ReplaceAllString ''SELECT 2'' '' '' = ''SELECT 2''\<close>
  by (simp_all add: isReSpace_def)

lemma leadingSpace_SELECT_2: \<open>leadingSpace ''SELECT 2'' = 0\<close>
  by (simp add: leadingSpace_def whiteSpace_def)

lemma trailingSpace_SELECT_2: \<open>trailingSpace ''SELECT 2'' = 0\<close>
  by (simp add: trailingSpace_def whiteSpace_def suffix_to_prefix)

lemma normalize_SELECT_1: \<open>tableNormalizeQuery ''SELECT 1'' = ''SELECT 1''\<close>
  by (simp only: tableNormalizeQuery_def TrimSpace_def ReplaceAll_SELECT_12
      leadingSpace_select trailingSpace_select TrimLeftSpace_id TrimRightSpace_id)

lemma normalize_SELECT_2: \<open>tableNormalizeQuery ''SELECT 2'' = ''SELECT 2''\<close>
  by (simp only: tableNormalizeQuery_def TrimSpace_def ReplaceAll_SELECT_12
      leadingSpace_SELECT_2 trailingSpace_SELECT_2 TrimLeftSpace_id TrimRightSpace_id)

text \<open>
  C7. \<^verbatim>\<open>tableNormalizeQuery\<close> is idempotent: normalising a normalised string returns it
  unchanged. A normalised string is a fixed point of both steps: it has no white space at
  either end, and replacing its runs of \<^verbatim>\<open>\s\<close> by a space changes nothing.
\<close>

theorem tableNormalizeQuery_idempotent:
  \<open>tableNormalizeQuery (tableNormalizeQuery s) = tableNormalizeQuery s
   \<and> tableSpace_ReplaceAllString (tableNormalizeQuery s) '' '' = tableNormalizeQuery s
   \<and> TrimSpace (tableNormalizeQuery s) = tableNormalizeQuery s
   \<and> leadingSpace (tableNormalizeQuery s) = 0
   \<and> trailingSpace (tableNormalizeQuery s) = 0\<close>
proof -
  have fixp: \<open>tableSpace_ReplaceAllString (tableNormalizeQuery s) '' '' = tableNormalizeQuery s\<close>
    by (rule ReplaceAll_collapsed) (rule tableNormalizeQuery_collapsed)
  have trim: \<open>TrimSpace (tableNormalizeQuery s) = tableNormalizeQuery s\<close>
    by (simp add: tableNormalizeQuery_def TrimSpace_idem)
  have trail: \<open>trailingSpace (tableNormalizeQuery s) = 0\<close>
    by (simp add: tableNormalizeQuery_def TrimSpace_def trailingSpace_TrimRightSpace)
  obtain n where n: \<open>TrimRightSpace (TrimLeftSpace (tableSpace_ReplaceAllString s '' '')) =
      take n (TrimLeftSpace (tableSpace_ReplaceAllString s '' ''))\<close>
    using TrimRightSpace_take by blast
  have lead: \<open>leadingSpace (tableNormalizeQuery s) = 0\<close>
    unfolding tableNormalizeQuery_def TrimSpace_def n
    by (rule leadingSpace_take) (rule leadingSpace_TrimLeftSpace)
  show ?thesis
    using tableNormalizeQuery_idem fixp trim lead trail by simp
qed

text \<open>
  C2. \<^verbatim>\<open>tableDiffSuppressStatement(_, old, new, d)\<close> is the case-folding comparison
  \<^verbatim>\<open>strings.EqualFold\<close> of the two normalised strings. It is reflexive: it returns true on
  \<^verbatim>\<open>(s, s)\<close> for every string \<^verbatim>\<open>s\<close>. It returns true on \<^verbatim>\<open>("SELECT  1", "select 1")\<close>, which
  differ in case and in a run of spaces, and false on \<^verbatim>\<open>("SELECT 1", "SELECT 2")\<close>. All
  of this holds whatever the case-folding table beyond ASCII is.
\<close>

theorem tableDiffSuppressStatement_spec:
  \<open>tableDiffSuppressStatement SimpleFold k old new d =
       EqualFold SimpleFold (tableNormalizeQuery old) (tableNormalizeQuery new)
   \<and> tableDiffSuppressStatement SimpleFold k s s d = Some True
   \<and> tableDiffSuppressStatement SimpleFold k ''SELECT  1'' ''select 1'' d = Some True
   \<and> tableDiffSuppressStatement SimpleFold k ''SELECT 1'' ''SELECT 2'' d = Some False\<close>
proof -
  have r: \<open>tableDiffSuppressStatement SimpleFold k s s d = Some True\<close>
    by (simp add: tableDiffSuppressStatement_def EqualFold_refl)
  have e: \<open>tableDiffSuppressStatement SimpleFold k ''SELECT  1'' ''select 1'' d = Some True\<close>
    by (simp only: tableDiffSuppressStatement_def normalize_SELECT normalize_select
        EqualFold_SELECT_select)
  have n: \<open>tableDiffSuppressStatement SimpleFold k ''SELECT 1'' ''SELECT 2'' d = Some False\<close>
    by (simp only: tableDiffSuppressStatement_def normalize_SELECT_1 normalize_SELECT_2
        EqualFold_SELECT_1_2)
  show ?thesis
    using r e n by (simp add: tableDiffSuppressStatement_def)
qed

section \<open>The reconciliation adapter (package resources)\<close>

subsection \<open>The host framework's resource data\<close>

text \<open>
  \<^verbatim>\<open>schema.ResourceData\<close> belongs to the plugin SDK. The model keeps what the callbacks
  use: the identifier, the attribute values of the prior state and the planned ones (all
  attributes of \<^verbatim>\<open>tableSchema\<close> are strings, and an attribute that is not set reads as the
  empty string), the values written by \<^verbatim>\<open>Set\<close>, the partial-state flag and the keys
  marked by \<^verbatim>\<open>SetPartial\<close>. \<^verbatim>\<open>GetChange\<close> returns the prior and the planned value,
  \<^verbatim>\<open>HasChange\<close> tells whether they differ, \<^verbatim>\<open>GetOk\<close> returns the value and whether it is
  not the zero value. \<^verbatim>\<open>Set\<close> is only called with keys of \<^verbatim>\<open>tableSchema\<close> and string
  values, for which the SDK returns no error.
\<close>

record ResourceData =
  resourceId :: string
  prior :: \<open>string \<Rightarrow> string\<close>
  planned :: \<open>string \<Rightarrow> string\<close>
  written :: \<open>string \<rightharpoonup> string\<close>
  partial :: bool
  partialKeys :: \<open>string list\<close>

definition Id :: \<open>ResourceData \<Rightarrow> string\<close> where
  \<open>Id d = resourceId d\<close>

definition SetId :: \<open>string \<Rightarrow> ResourceData \<Rightarrow> ResourceData\<close> where
  \<open>SetId v d = d\<lparr>resourceId := v\<rparr>\<close>

definition Get :: \<open>string \<Rightarrow> ResourceData \<Rightarrow> string\<close> where
  \<open>Get key d = (case written d key of Some v \<Rightarrow> v | None \<Rightarrow> planned d key)\<close>

definition GetOk :: \<open>string \<Rightarrow> ResourceData \<Rightarrow> string \<times> bool\<close> where
  \<open>GetOk key d = (Get key d, Get key d \<noteq> [])\<close>

definition GetChange :: \<open>string \<Rightarrow> ResourceData \<Rightarrow> string \<times> string\<close> where
  \<open>GetChange key d = (prior d key, planned d key)\<close>

definition HasChange :: \<open>string \<Rightarrow> ResourceData \<Rightarrow> bool\<close> where
  \<open>HasChange key d = (let (old, new) = GetChange key d in old \<noteq> new)\<close>

definition Set :: \<open>string \<Rightarrow> string \<Rightarrow> ResourceData \<Rightarrow> string option \<times> ResourceData\<close> where
  \<open>Set key v d = (None, d\<lparr>written := (written d)(key \<mapsto> v)\<rparr>)\<close>

definition Partial :: \<open>bool \<Rightarrow> ResourceData \<Rightarrow> ResourceData\<close> where
  \<open>Partial on d = d\<lparr>partial := on\<rparr>\<close>

definition SetPartial :: \<open>string \<Rightarrow> ResourceData \<Rightarrow> ResourceData\<close> where
  \<open>SetPartial key d = d\<lparr>partialKeys := partialKeys d @ [key]\<rparr>\<close>

subsection \<open>The database connection\<close>

text \<open>
  \<^verbatim>\<open>sql.NullString\<close> and the row type \<^verbatim>\<open>table\<close> that \<^verbatim>\<open>ScanTable\<close> fills.
\<close>

record NullString =
  String :: string
  Valid :: bool

record table =
  Comment :: NullString
  Name :: NullString
  SchemaName :: NullString
  DatabaseName :: NullString

text \<open>
  Modelled from the spec: \<^verbatim>\<open>snowflake.Exec\<close> and \<^verbatim>\<open>snowflake.QueryRow\<close> are not among the
  source files. Following sections 2 and 4.3 of the specification, each sends one
  statement synchronously over the shared connection and hands back what the service
  answers: an error or none for \<^verbatim>\<open>Exec\<close>, a row for \<^verbatim>\<open>QueryRow\<close>. The service is a
  parameter: its answers may depend on the statement and on everything sent before. The
  state threaded through the callbacks is the list of calls made so far, oldest first,
  each tagged with the function that made it.
\<close>

datatype call = ExecCall string | QueryRowCall string

record Server =
  execReply :: \<open>call list \<Rightarrow> string \<Rightarrow> string option\<close>
  rowReply :: \<open>call list \<Rightarrow> string \<Rightarrow> string + table\<close>

definition Exec :: \<open>Server \<Rightarrow> string \<Rightarrow> call list \<Rightarrow> string option \<times> call list\<close> where
  \<open>Exec srv query log = (execReply srv log query, log @ [ExecCall query])\<close>

definition QueryRow :: \<open>Server \<Rightarrow> string \<Rightarrow> call list \<Rightarrow> (string + table) \<times> call list\<close> where
  \<open>QueryRow srv stmt log = (rowReply srv log stmt, log @ [QueryRowCall stmt])\<close>

text \<open>
  \<^verbatim>\<open>ScanTable\<close> scans the row into a fresh \<^verbatim>\<open>table\<close> and returns it with the error of the
  scan; a row that carries an error leaves the fields at their zero values.
\<close>

definition ScanTable :: \<open>string + table \<Rightarrow> table \<times> string option\<close> where
  \<open>ScanTable row =
     (let null = \<lparr>String = [], Valid = False\<rparr>;
          r = \<lparr>Comment = null, Name = null, SchemaName = null, DatabaseName = null\<rparr>
      in case row of Inl err \<Rightarrow> (r, Some err) | Inr v \<Rightarrow> (v, None))\<close>

text \<open>\<^verbatim>\<open>errors.Wrapf(err, format, args...)\<close>: the formatted message, a colon and the message
  of the wrapped error.\<close>

definition Wrapf :: \<open>string \<Rightarrow> string \<Rightarrow> string\<close> where
  \<open>Wrapf err msg = msg @ '': '' @ err\<close>

subsection \<open>The callbacks\<close>

text \<open>
  A callback takes the service, the resource data and the calls made so far, and returns
  its error (if any), the resource data and the calls as it leaves them. An early
  \<^verbatim>\<open>return\<close> of the Go code is the branch that stops there.
\<close>

definition ReadTable ::
    \<open>Server \<Rightarrow> ResourceData \<Rightarrow> call list \<Rightarrow> string option \<times> ResourceData \<times> call list\<close> where
  \<open>ReadTable srv data log =
     (case splitTableID (Id data) of
        Inl err \<Rightarrow> (Some err, data, log)
      | Inr (dbName, schema', table') \<Rightarrow>
          let (q, _) = Show (WithSchema schema' (WithDB dbName (Table table')));
              (row, log1) = QueryRow srv q log;
              (v, err) = ScanTable row
          in (case err of
                Some e \<Rightarrow> (Some e, data, log1)
              | None \<Rightarrow>
                  let (err1, data1) = Set ''name'' (String (Name v)) data
                  in (case err1 of
                        Some e \<Rightarrow> (Some e, data1, log1)
                      | None \<Rightarrow>
                          let (err2, data2) = Set ''schema'' (String (SchemaName v)) data1
                          in (case err2 of
                                Some e \<Rightarrow> (Some e, data2, log1)
                              | None \<Rightarrow>
                                  let (err3, data3) =
                                        Set ''database'' (String (DatabaseName v)) data2
                                  in (err3, data3, log1)))))\<close>

definition CreateTable ::
    \<open>Server \<Rightarrow> ResourceData \<Rightarrow> call list \<Rightarrow> string option \<times> ResourceData \<times> call list\<close> where
  \<open>CreateTable srv data log =
     (let name' = Get ''name'' data;
          schema' = Get ''schema'' data;
          database = Get ''database'' data;
          builder = WithSchema schema' (WithDB database (Table name'));
          builder1 = (case GetOk ''comment'' data of
                        (v, ok) \<Rightarrow> if ok then WithComment v builder else builder);
          builder2 = (case GetOk ''schema'' data of
                        (v, ok) \<Rightarrow> if ok then WithSchema v builder1 else builder1);
          (q, builder3) = Create builder2;
          (err, log1) = Exec srv q log
      in (case err of
            Some e \<Rightarrow> (Some (Wrapf e (''error creating table '' @ name')), data, log1)
          | None \<Rightarrow> ReadTable srv (SetId (tableID database schema' name') data) log1))\<close>

definition UpdateTable ::
    \<open>Server \<Rightarrow> ResourceData \<Rightarrow> call list \<Rightarrow> string option \<times> ResourceData \<times> call list\<close> where
  \<open>UpdateTable srv data0 log0 =
     (let data1 = Partial True data0
      in (case splitTableID (Id data1) of
           Inl err \<Rightarrow> (Some err, data1, log0)
         | Inr (dbName, schema', table') \<Rightarrow>
             let builder = WithSchema schema' (WithDB dbName (Table table'));
                 renamed =
                   (if HasChange ''name'' data1 then
                      let (_, name') = GetChange ''name'' data1;
                          (q, builder1) = Rename name' builder;
                          (err, log1) = Exec srv q log0
                      in (case err of
                            Some e \<Rightarrow>
                              Inl (Wrapf e (''error renaming table '' @ Id data1), data1, log1)
                          | None \<Rightarrow>
                              Inr (builder1,
                                   SetPartial ''name'' (SetId (tableID dbName schema' name') data1),
                                   log1))
                    else Inr (builder, data1, log0))
             in (case renamed of
                  Inl (e, data2, log2) \<Rightarrow> (Some e, data2, log2)
                | Inr (builder2, data2, log2) \<Rightarrow>
                    let commented =
                      (if HasChange ''comment'' data2 then
                         let (_, c) = GetChange ''comment'' data2
                         in if c = [] then
                              let (q, builder3) = RemoveComment builder2;
                                  (err, log3) = Exec srv q log2
                              in (case err of
                                    Some e \<Rightarrow>
                                      Inl (Wrapf e (''error unsetting comment for table '' @ Id data2),
                                           data2, log3)
                                  | None \<Rightarrow> Inr (SetPartial ''comment'' data2, log3))
                            else
                              let (q, builder3) = ChangeComment c builder2;
                                  (err, log3) = Exec srv q log2
                              in (case err of
                                    Some e \<Rightarrow>
                                      Inl (Wrapf e (''error updating comment for table '' @ Id data2),
                                           data2, log3)
                                  | None \<Rightarrow> Inr (SetPartial ''comment'' data2, log3))
                       else Inr (data2, log2))
                    in (case commented of
                          Inl (e, data3, log3) \<Rightarrow> (Some e, data3, log3)
                        | Inr (data3, log3) \<Rightarrow> ReadTable srv data3 log3))))\<close>

text \<open>The statements sent through \<^verbatim>\<open>Exec\<close>, in order: the statements that can change the
  remote table. The \<^verbatim>\<open>SHOW\<close> query of \<^verbatim>\<open>ReadTable\<close> goes through \<^verbatim>\<open>QueryRow\<close>.\<close>

fun execs :: \<open>call list \<Rightarrow> string list\<close> where
  \<open>execs [] = []\<close>
| \<open>execs (ExecCall q # cs) = q # execs cs\<close>
| \<open>execs (QueryRowCall q # cs) = execs cs\<close>


subsection \<open>Updating the comment\<close>

lemma split_D_PUBLIC_T: \<open>splitTableID ''D|PUBLIC|T'' = Inr (''D'', ''PUBLIC'', ''T'')\<close>
  using splitTableID_three [of \<open>''D''\<close> \<open>''PUBLIC''\<close> \<open>''T''\<close>] by simp

lemma execs_append: \<open>execs (xs @ ys) = execs xs @ execs ys\<close>
  by (induction xs rule: execs.induct) simp_all

lemma ReadTable_frame:
  \<open>execs (snd (snd (ReadTable srv d log))) = execs log \<and> Id (fst (snd (ReadTable srv d log))) = Id d\<close>
  by (simp add: ReadTable_def QueryRow_def ScanTable_def Set_def Id_def Let_def execs_append
      split: sum.splits option.splits prod.splits)

lemma RemoveComment_D: \<open>fst (RemoveComment (WithSchema ''PUBLIC'' (WithDB ''D'' (Table ''T'')))) =
    ''ALTER TABLE "D"."PUBLIC"."T" UNSET COMMENT''\<close>
  by (simp add: RemoveComment_def QualifiedName_def WithSchema_def WithDB_def Table_def)

lemma ChangeComment_D: \<open>fst (ChangeComment c (WithSchema ''PUBLIC'' (WithDB ''D'' (Table ''T'')))) =
    ''ALTER TABLE "D"."PUBLIC"."T" SET COMMENT = '' @ sq @ c @ sq\<close>
  by (simp add: ChangeComment_def QualifiedName_def WithSchema_def WithDB_def Table_def)

text \<open>
  C8. \<^verbatim>\<open>UpdateTable\<close> on a resource with the identifier \<^verbatim>\<open>D|PUBLIC|T\<close>, an unchanged name
  and a comment that changes from \<^verbatim>\<open>hi\<close> to \<^verbatim>\<open>c\<close>: whatever the service answers and
  whatever else the resource data holds, when \<^verbatim>\<open>c\<close> is empty exactly one statement is
  sent through \<^verbatim>\<open>Exec\<close>, namely \<^verbatim>\<open>ALTER TABLE "D"."PUBLIC"."T" UNSET COMMENT\<close>, and no
  rename; when \<^verbatim>\<open>c\<close> is another non-empty comment the one statement is
  \<^verbatim>\<open>ALTER TABLE "D"."PUBLIC"."T" SET COMMENT = '<c>'\<close>; when \<^verbatim>\<open>c\<close> is \<^verbatim>\<open>hi\<close> again nothing
  is sent through \<^verbatim>\<open>Exec\<close>. The identifier stays \<^verbatim>\<open>D|PUBLIC|T\<close>.
\<close>

theorem UpdateTable_comment_only:
  \<open>(let d = data\<lparr>resourceId := ''D|PUBLIC|T'',
                 prior := (prior data)(''name'' := ''T'', ''comment'' := ''hi''),
                 planned := (planned data)(''name'' := ''T'', ''comment'' := c)\<rparr>;
        unset = ''ALTER TABLE "D"."PUBLIC"."T" UNSET COMMENT'';
        set = ''ALTER TABLE "D"."PUBLIC"."T" SET COMMENT = '' @ sq @ c @ sq;
        (err, d', log') = UpdateTable srv d log
    in execs log' = execs log @ (if c = ''hi'' then [] else if c = [] then [unset] else [set])
       \<and> Id d' = ''D|PUBLIC|T'')\<close>
proof -
  define d where \<open>d = data\<lparr>resourceId := ''D|PUBLIC|T'',
                 prior := (prior data)(''name'' := ''T'', ''comment'' := ''hi''),
                 planned := (planned data)(''name'' := ''T'', ''comment'' := c)\<rparr>\<close>
  have id: \<open>Id (Partial True d) = ''D|PUBLIC|T''\<close>
    by (simp add: d_def Id_def Partial_def)
  have nm: \<open>\<not> HasChange ''name'' (Partial True d)\<close>
    by (simp add: d_def HasChange_def GetChange_def Partial_def)
  have cm: \<open>HasChange ''comment'' (Partial True d) = (c \<noteq> ''hi'')\<close>
    by (auto simp add: d_def HasChange_def GetChange_def Partial_def)
  have gc: \<open>GetChange ''comment'' (Partial True d) = (''hi'', c)\<close>
    by (simp add: d_def GetChange_def Partial_def)
  have qn: \<open>fst (QualifiedName (WithSchema ''PUBLIC'' (WithDB ''D'' (Table ''T'')))) = ''"D"."PUBLIC"."T"''\<close>
    by (simp add: QualifiedName_def WithSchema_def WithDB_def Table_def)
  let ?b = \<open>WithSchema ''PUBLIC'' (WithDB ''D'' (Table ''T''))\<close>
  have same: \<open>execs (snd (snd (UpdateTable srv d log))) = execs log \<and>
      Id (fst (snd (UpdateTable srv d log))) = ''D|PUBLIC|T''\<close> if \<open>c = ''hi''\<close>
    using that ReadTable_frame [of srv \<open>Partial True d\<close> log]
    by (simp add: UpdateTable_def Let_def id split_D_PUBLIC_T nm cm)
  have unset: \<open>execs (snd (snd (UpdateTable srv d log))) =
        execs log @ [''ALTER TABLE "D"."PUBLIC"."T" UNSET COMMENT''] \<and>
      Id (fst (snd (UpdateTable srv d log))) = ''D|PUBLIC|T''\<close> if \<open>c = []\<close>
  proof -
    obtain q b where rc: \<open>RemoveComment ?b = (q, b)\<close> by force
    with RemoveComment_D have q: \<open>q = ''ALTER TABLE "D"."PUBLIC"."T" UNSET COMMENT''\<close> by simp
    have i2: \<open>Id (SetPartial ''comment'' (Partial True d)) = ''D|PUBLIC|T''\<close>
      using id by (simp add: Id_def SetPartial_def)
    show ?thesis
      using that ReadTable_frame [of srv \<open>SetPartial ''comment'' (Partial True d)\<close> \<open>log @ [ExecCall q]\<close>]
      by (simp add: UpdateTable_def Let_def id split_D_PUBLIC_T nm cm gc rc Exec_def execs_append q i2
          split: option.splits)
  qed
  have setc: \<open>execs (snd (snd (UpdateTable srv d log))) =
        execs log @ [''ALTER TABLE "D"."PUBLIC"."T" SET COMMENT = '' @ sq @ c @ sq] \<and>
      Id (fst (snd (UpdateTable srv d log))) = ''D|PUBLIC|T''\<close> if \<open>c \<noteq> []\<close> \<open>c \<noteq> ''hi''\<close>
  proof -
    obtain q b where rc: \<open>ChangeComment c ?b = (q, b)\<close> by force
    with ChangeComment_D [of c] have q: \<open>q = ''ALTER TABLE "D"."PUBLIC"."T" SET COMMENT = '' @ sq @ c @ sq\<close> by simp
    have i2: \<open>Id (SetPartial ''comment'' (Partial True d)) = ''D|PUBLIC|T''\<close>
      using id by (simp add: Id_def SetPartial_def)
    show ?thesis
      using that ReadTable_frame [of srv \<open>SetPartial ''comment'' (Partial True d)\<close> \<open>log @ [ExecCall q]\<close>]
      by (simp add: UpdateTable_def Let_def id split_D_PUBLIC_T nm cm gc rc Exec_def execs_append q i2
          split: option.splits)
  qed
  show ?thesis
    unfolding d_def [symmetric] Let_def
    using same unset setc by (auto simp: case_prod_beta)
qed

subsection \<open>Creating\<close>

text \<open>
  The creation scenario of the specification: with name \<^verbatim>\<open>T\<close>, database \<^verbatim>\<open>D\<close>, schema
  \<^verbatim>\<open>PUBLIC\<close> and comment \<^verbatim>\<open>hi\<close>, \<^verbatim>\<open>CreateTable\<close> sends one \<^verbatim>\<open>CREATE\<close> statement, and when
  the service accepts it the identifier becomes \<^verbatim>\<open>D|PUBLIC|T\<close>.
\<close>

lemma CreateTable_scenario:
  \<open>(let d = data\<lparr>planned := (planned data)(''name'' := ''T'', ''database'' := ''D'',
                     ''schema'' := ''PUBLIC'', ''comment'' := ''hi''),
                 written := Map.empty\<rparr>;
        stmt = ''CREATE OR REPLACE TABLE "D"."PUBLIC"."T"(placeholder varchar(100)) COMMENT = '' @
               sq @ ''hi'' @ sq;
        (err, d', log') = CreateTable srv d log
    in execs log' = execs log @ [stmt] \<and>
       Id d' = (if execReply srv log stmt = None then ''D|PUBLIC|T'' else Id data))\<close>
proof -
  define d where \<open>d = data\<lparr>planned := (planned data)(''name'' := ''T'', ''database'' := ''D'',
                     ''schema'' := ''PUBLIC'', ''comment'' := ''hi''),
                 written := Map.empty\<rparr>\<close>
  have g: \<open>Get ''name'' d = ''T''\<close> \<open>Get ''database'' d = ''D''\<close> \<open>Get ''schema'' d = ''PUBLIC''\<close>
    \<open>Get ''comment'' d = ''hi''\<close>
    by (simp_all add: d_def Get_def)
  have c: \<open>Create (WithSchema ''PUBLIC'' (WithComment ''hi'' (WithSchema ''PUBLIC'' (WithDB ''D'' (Table ''T''))))) =
      (''CREATE OR REPLACE TABLE "D"."PUBLIC"."T"(placeholder varchar(100)) COMMENT = '' @ sq @ ''hi'' @ sq,
       WithSchema ''PUBLIC'' (WithComment ''hi'' (WithSchema ''PUBLIC'' (WithDB ''D'' (Table ''T'')))))\<close>
    by (simp add: Create_def QualifiedName_def WithSchema_def WithDB_def WithComment_def Table_def)
  have i: \<open>Id (SetId (tableID ''D'' ''PUBLIC'' ''T'') d) = ''D|PUBLIC|T''\<close> \<open>Id d = Id data\<close>
    by (simp_all add: Id_def SetId_def tableID_def d_def)
  show ?thesis
    unfolding d_def [symmetric] Let_def
    using ReadTable_frame [of srv \<open>SetId (tableID ''D'' ''PUBLIC'' ''T'') d\<close>
        \<open>log @ [ExecCall (''CREATE OR REPLACE TABLE "D"."PUBLIC"."T"(placeholder varchar(100)) COMMENT = '' @ sq @ ''hi'' @ sq)]\<close>]
    by (simp add: CreateTable_def Let_def g GetOk_def c Exec_def execs_append i case_prod_beta
        split: option.splits)
qed

end
